theory Spec2Isabelle
  imports Main "HOL-Library.Word"
begin

section \<open>The GNT record decoder of CASIA.py\<close>

text \<open>
  The development embeds \<^verbatim>\<open>CASIA.load_gnt_file\<close> (CASIA.py, lines 136-165), the
  generator that reads a GNT file record by record, and the two places of the class
  that call a function by a bare name (\<^verbatim>\<open>__init__\<close>, \<^verbatim>\<open>load_dataset\<close>).
  The \<^verbatim>\<open>print\<close> of the file name, which \<^verbatim>\<open>silent\<close> switches off, changes nothing
  that is yielded and is left out.

  The open file is the list of bytes that remain to be read. A generator is its list
  of yielded items together with the way it ended: exhausted, or an exception that
  reaches the caller after the items yielded so far.
\<close>

subsection \<open>Data\<close>

type_synonym byte = "8 word"

datatype error =
    StructError          \<comment> \<open>\<^verbatim>\<open>struct.error\<close>: the buffer has not the size the format needs\<close>
  | UnicodeDecodeError   \<comment> \<open>\<^verbatim>\<open>codecs.decode\<close> rejects the bytes\<close>
  | ValueError           \<comment> \<open>\<^verbatim>\<open>ndarray.reshape\<close>: the size does not fit the shape\<close>
  | NameError            \<comment> \<open>a free name bound nowhere\<close>
  | AttributeError       \<comment> \<open>an attribute the object has not\<close>
  | AssertionError
  | LibraryError nat     \<comment> \<open>anything an external library call raises\<close>

datatype outcome = Done | Raised error

text \<open>The two-dimensional array \<^verbatim>\<open>np.array(photo_bytes).reshape(height, width)\<close>.\<close>

record ndarray =
  nrows :: nat
  ncols :: nat
  rows :: "byte list list"

text \<open>One turn of the \<^verbatim>\<open>while True\<close> loop: \<^verbatim>\<open>break\<close>, an exception, or a
  \<^verbatim>\<open>yield\<close> that leaves the file at the bytes not read yet.\<close>

datatype ('img, 'txt) step =
    Stop
  | Raise error
  | Yield "'img \<times> 'txt" "byte list"

subsection \<open>The library calls of the loop body\<close>

text \<open>\<^verbatim>\<open>f.read(n)\<close> on a binary file: at most \<open>n\<close> bytes, fewer at the end of the
  file, and the file advanced past them.\<close>

definition f_read :: "nat \<Rightarrow> byte list \<Rightarrow> byte list \<times> byte list" where
  "f_read n f = (take n f, drop n f)"

text \<open>\<^verbatim>\<open>struct.unpack\<close> raises \<^verbatim>\<open>struct.error\<close> unless the buffer has exactly the
  size of the format.\<close>

definition le16 :: "byte \<Rightarrow> byte \<Rightarrow> nat" where
  "le16 b0 b1 = unat b0 + 256 * unat b1"

definition unpack_I :: "byte list \<Rightarrow> error + nat" where
  \<comment> \<open>\<^verbatim>\<open>struct.unpack("<I", b)[0]\<close>\<close>
  "unpack_I b =
     (if length b = 4
      then Inr (unat (b ! 0) + 256 * unat (b ! 1) + 65536 * unat (b ! 2)
                + 16777216 * unat (b ! 3))
      else Inl StructError)"

definition unpack_cc :: "byte list \<Rightarrow> error + (byte list \<times> byte list)" where
  \<comment> \<open>\<^verbatim>\<open>struct.unpack(">cc", b)\<close>: two bytes objects of length one\<close>
  "unpack_cc b = (if length b = 2 then Inr ([b ! 0], [b ! 1]) else Inl StructError)"

definition unpack_H :: "byte list \<Rightarrow> error + nat" where
  \<comment> \<open>\<^verbatim>\<open>struct.unpack("<H", b)[0]\<close>\<close>
  "unpack_H b = (if length b = 2 then Inr (le16 (b ! 0) (b ! 1)) else Inl StructError)"

definition unpack_B :: "nat \<Rightarrow> byte list \<Rightarrow> error + byte list" where
  \<comment> \<open>\<^verbatim>\<open>struct.unpack("{}B".format(n), b)\<close>\<close>
  "unpack_B n b = (if length b = n then Inr b else Inl StructError)"

text \<open>\<^verbatim>\<open>np.array(xs).reshape(height, width)\<close> raises \<^verbatim>\<open>ValueError\<close> unless
  \<open>xs\<close> has \<open>height * width\<close> elements; row \<open>i\<close> of the result holds the elements
  \<open>i * width\<close> to \<open>i * width + width - 1\<close> of the flat sequence.\<close>

definition grid :: "nat \<Rightarrow> nat \<Rightarrow> byte list \<Rightarrow> byte list list" where
  "grid height width xs = map (\<lambda>i. take width (drop (i * width) xs)) [0..<height]"

definition reshape :: "nat \<Rightarrow> nat \<Rightarrow> byte list \<Rightarrow> error + ndarray" where
  "reshape height width xs =
     (if length xs = height * width
      then Inr \<lparr>nrows = height, ncols = width, rows = grid height width xs\<rparr>
      else Inl ValueError)"

subsection \<open>The loop body and the generator\<close>

text \<open>
  Two functions of the body come from outside the repository and are parameters:
  \<open>gb2312\<close> is \<^verbatim>\<open>codecs.decode(_, encoding="gb2312")\<close>, \<open>None\<close> where it raises
  \<^verbatim>\<open>UnicodeDecodeError\<close>; \<open>toimage\<close> is \<^verbatim>\<open>scipy.misc.toimage\<close>, which returns an
  image or raises. What the library makes of an array is not the repository's code:
  the statements below are about the array the generator hands to \<open>toimage\<close> and
  name the image only as \<open>toimage\<close>'s result for it. The statements of lines 150-165
  are kept in their order: the payload is read and unpacked before the label is
  decoded, and the label is decoded before the array is built.
\<close>

definition next_record ::
  "(ndarray \<Rightarrow> error + 'img) \<Rightarrow> (byte list \<Rightarrow> 'txt option) \<Rightarrow> byte list \<Rightarrow> ('img, 'txt) step"
where
  "next_record toimage gb2312 f =
     (case f_read 4 f of (packed_length, f1) \<Rightarrow>
      if packed_length = [] then Stop else
     (case unpack_I packed_length of Inl e \<Rightarrow> Raise e | Inr len \<Rightarrow>
     (case f_read 2 f1 of (b_label, f2) \<Rightarrow>
     (case unpack_cc b_label of Inl e \<Rightarrow> Raise e | Inr raw_label \<Rightarrow>
     (case f_read 2 f2 of (b_width, f3) \<Rightarrow>
     (case unpack_H b_width of Inl e \<Rightarrow> Raise e | Inr width \<Rightarrow>
     (case f_read 2 f3 of (b_height, f4) \<Rightarrow>
     (case unpack_H b_height of Inl e \<Rightarrow> Raise e | Inr height \<Rightarrow>
     (case f_read (height * width) f4 of (b_photo, f5) \<Rightarrow>
     (case unpack_B (height * width) b_photo of Inl e \<Rightarrow> Raise e | Inr photo_bytes \<Rightarrow>
     (case gb2312 (fst raw_label @ snd raw_label) of
        None \<Rightarrow> Raise UnicodeDecodeError
      | Some label \<Rightarrow>
     (case reshape height width photo_bytes of Inl e \<Rightarrow> Raise e | Inr arr \<Rightarrow>
     (case toimage arr of Inl e \<Rightarrow> Raise e | Inr img \<Rightarrow>
      Yield (img, label) f5)))))))))))))"

function load_gnt_file ::
  "(ndarray \<Rightarrow> error + 'img) \<Rightarrow> (byte list \<Rightarrow> 'txt option) \<Rightarrow> byte list
     \<Rightarrow> ('img \<times> 'txt) list \<times> outcome"
where
  "load_gnt_file toimage gb2312 f =
     (case next_record toimage gb2312 f of
        Stop \<Rightarrow> ([], Done)
      | Raise e \<Rightarrow> ([], Raised e)
      | Yield r f' \<Rightarrow>
          (case load_gnt_file toimage gb2312 f' of (rs, out) \<Rightarrow> (r # rs, out)))"
  by pat_completeness auto
termination
proof (relation "measure (\<lambda>(toimage, gb2312, f). length f)")
  show "wf (measure (\<lambda>(toimage, gb2312, f). length f))" by simp
next
  fix toimage :: "ndarray \<Rightarrow> error + 'img" and gb2312 :: "byte list \<Rightarrow> 'txt option"
    and f f' :: "byte list" and r :: "'img \<times> 'txt"
  assume "next_record toimage gb2312 f = Yield r f'"
  then have "length f' < length f"
    unfolding next_record_def f_read_def unpack_I_def unpack_B_def
    by (auto split: if_splits sum.splits option.splits prod.splits)
  then show "((toimage, gb2312, f'), (toimage, gb2312, f))
      \<in> measure (\<lambda>(toimage, gb2312, f). length f)" by simp
qed

declare load_gnt_file.simps [simp del]

subsection \<open>The class around the generator\<close>

text \<open>
  A bare name in a function body is looked up in the function's local names, then in
  the names bound at module level, then in the builtins. The names bound in a class
  body (the methods) are not on that path: they are reached as attributes of the class
  or of an instance. \<open>module_globals\<close> are the names CASIA.py binds at module level
  (lines 1-16, 18, 21, 168), \<open>CASIA_attributes\<close> the names bound in the body of
  \<^verbatim>\<open>class CASIA\<close>, \<open>builtins_used\<close> the builtins the file calls. Assert statements are
  executed, as the interpreter does unless started with \<^verbatim>\<open>-O\<close>.
\<close>

definition module_globals :: "string list" where
  "module_globals =
     [''glob'', ''struct'', ''zipfile'', ''decode'', ''ceil'', ''listdir'', ''makedirs'',
      ''remove'', ''isdir'', ''isfile'', ''clock'', ''urlretrieve'', ''np'', ''toimage'',
      ''tqdm'', ''__author__'', ''CASIA'', ''DLProgress'']"

definition builtins_used :: "string list" where
  "builtins_used = [''print'', ''range'', ''open'', ''Exception'']"

definition CASIA_attributes :: "string list" where
  "CASIA_attributes =
     [''__init__'', ''get_all_datasets'', ''get_dataset'', ''load_character_images'',
      ''load_dataset'', ''load_gnt_file'']"

definition lookup_name :: "string \<Rightarrow> error + string" where
  "lookup_name n =
     (if n \<in> set module_globals \<or> n \<in> set builtins_used then Inr n else Inl NameError)"

definition lookup_attribute :: "string \<Rightarrow> error + string" where
  "lookup_attribute n = (if n \<in> set CASIA_attributes then Inr n else Inl AttributeError)"

text \<open>An instance holds the two attributes \<^verbatim>\<open>__init__\<close> assigns, \<open>None\<close> while
  unassigned. A dataset is its name, its url and its type.\<close>

record casia =
  datasets :: "(string \<times> string \<times> string) list option"
  character_sets :: "string list option"

definition the_datasets :: "(string \<times> string \<times> string) list" where
  "the_datasets =
     [(''competition-gnt'',
       ''http://www.nlpr.ia.ac.cn/databases/Download/competition/competition-gnt.zip'',
       ''GNT''),
      (''HWDB1.1trn_gnt_P1'',
       ''http://www.nlpr.ia.ac.cn/databases/Download/feature_data/HWDB1.1trn_gnt_P1.zip'',
       ''GNT''),
      (''HWDB1.1trn_gnt_P2'',
       ''http://www.nlpr.ia.ac.cn/databases/Download/feature_data/HWDB1.1trn_gnt_P2.zip'',
       ''GNT''),
      (''HWDB1.1tst_gnt'',
       ''http://www.nlpr.ia.ac.cn/databases/download/feature_data/HWDB1.1tst_gnt.zip'',
       ''GNT'')]"

text \<open>\<^verbatim>\<open>__init__\<close> (lines 25-46). The assert comes first and calls the bare name
  \<^verbatim>\<open>get_all_datasets\<close>; \<open>called\<close> is what that call would return or raise if the
  name were bound.\<close>

definition init :: "(error + bool) \<Rightarrow> casia \<Rightarrow> error + casia" where
  "init called self =
     (case lookup_name ''get_all_datasets'' of
        Inl e \<Rightarrow> Inl e
      | Inr _ \<Rightarrow>
         (case called of
            Inl e \<Rightarrow> Inl e
          | Inr ok \<Rightarrow>
             if \<not> ok then Inl AssertionError
             else Inr (self\<lparr>datasets := Some the_datasets,
                        character_sets :=
                          Some (map fst (filter (\<lambda>d. snd (snd d) = ''GNT'') the_datasets))\<rparr>)))"

text \<open>The call \<^verbatim>\<open>CASIA()\<close>: a fresh object goes through \<^verbatim>\<open>__init__\<close>, whose exception
  is the call's.\<close>

definition CASIA :: "(error + bool) \<Rightarrow> error + casia" where
  "CASIA called = init called \<lparr>datasets = None, character_sets = None\<rparr>"

text \<open>\<^verbatim>\<open>load_dataset\<close> (lines 123-134). \<open>got\<close> is the result of
  \<^verbatim>\<open>self.get_dataset(dataset)\<close>, \<open>paths\<close> the result of \<^verbatim>\<open>glob.glob\<close>, \<open>files\<close> the
  content of each path. The loop over the paths calls the bare name
  \<^verbatim>\<open>load_gnt_file\<close>.\<close>

fun load_paths ::
  "(ndarray \<Rightarrow> error + 'img) \<Rightarrow> (byte list \<Rightarrow> 'txt option) \<Rightarrow> (string \<Rightarrow> byte list)
     \<Rightarrow> string list \<Rightarrow> ('img \<times> 'txt) list \<times> outcome"
where
  "load_paths toimage gb2312 files [] = ([], Done)"
| "load_paths toimage gb2312 files (path # paths) =
     (case lookup_name ''load_gnt_file'' of
        Inl e \<Rightarrow> ([], Raised e)
      | Inr _ \<Rightarrow>
         (case load_gnt_file toimage gb2312 (files path) of
            (rs, Raised e) \<Rightarrow> (rs, Raised e)
          | (rs, Done) \<Rightarrow>
             (case load_paths toimage gb2312 files paths of (rs', out) \<Rightarrow> (rs @ rs', out))))"

definition load_dataset ::
  "(ndarray \<Rightarrow> error + 'img) \<Rightarrow> (byte list \<Rightarrow> 'txt option) \<Rightarrow> (string \<Rightarrow> byte list)
     \<Rightarrow> (error + bool) \<Rightarrow> string list \<Rightarrow> ('img \<times> 'txt) list \<times> outcome"
where
  "load_dataset toimage gb2312 files got paths =
     (case got of
        Inl e \<Rightarrow> ([], Raised e)
      | Inr ok \<Rightarrow>
         if \<not> ok then ([], Raised AssertionError)
         else load_paths toimage gb2312 files paths)"

subsection \<open>The record layout of the format\<close>

text \<open>
  The repository has no encoder. The layout below follows the description of the
  format: a 4-byte little-endian length, the two label bytes, the width and the height
  as 2-byte little-endian numbers, then the pixels. It is what the decoder is compared
  with.
\<close>

record gnt_record =
  r_length :: nat
  r_label :: "byte \<times> byte"
  r_width :: nat
  r_height :: nat
  r_pixels :: "byte list"

definition pack_I :: "nat \<Rightarrow> byte list" where
  "pack_I n = [of_nat (n mod 256), of_nat (n div 256 mod 256),
               of_nat (n div 65536 mod 256), of_nat (n div 16777216 mod 256)]"

definition pack_H :: "nat \<Rightarrow> byte list" where
  "pack_H n = [of_nat (n mod 256), of_nat (n div 256 mod 256)]"

definition gnt_layout :: "gnt_record \<Rightarrow> byte list" where
  "gnt_layout r =
     pack_I (r_length r) @ [fst (r_label r), snd (r_label r)]
       @ pack_H (r_width r) @ pack_H (r_height r) @ r_pixels r"

definition well_formed :: "gnt_record \<Rightarrow> bool" where
  "well_formed r \<longleftrightarrow>
     r_length r < 2 ^ 32 \<and> r_width r < 2 ^ 16 \<and> r_height r < 2 ^ 16
       \<and> length (r_pixels r) = r_width r * r_height r"

text \<open>The array a record stands for: \<open>r_height\<close> rows of \<open>r_width\<close> pixels.\<close>

definition array_of :: "gnt_record \<Rightarrow> ndarray" where
  "array_of r = \<lparr>nrows = r_height r, ncols = r_width r,
                  rows = grid (r_height r) (r_width r) (r_pixels r)\<rparr>"

text \<open>A record decodes to an image and a text when it is well formed, the codec turns
  its two label bytes into the text, and \<open>toimage\<close> turns its array into the image.\<close>

definition decodes_to ::
  "(ndarray \<Rightarrow> error + 'img) \<Rightarrow> (byte list \<Rightarrow> 'txt option) \<Rightarrow> gnt_record
     \<Rightarrow> 'img \<times> 'txt \<Rightarrow> bool"
where
  "decodes_to toimage gb2312 r out \<longleftrightarrow>
     well_formed r \<and> gb2312 [fst (r_label r), snd (r_label r)] = Some (snd out)
       \<and> toimage (array_of r) = Inr (fst out)"

text \<open>
  Two files that differ at most in the values of length fields. The place of each
  length field follows from the widths and heights before it; \<open>last_field\<close> is the
  length field of a record that the file does not hold in full.
\<close>

inductive same_but_lengths :: "byte list \<Rightarrow> byte list \<Rightarrow> bool" where
  same: "same_but_lengths f f"
| last_field: "length l = 4 \<Longrightarrow> length l' = 4 \<Longrightarrow> same_but_lengths (l @ t) (l' @ t)"
| record_field:
    "length l = 4 \<Longrightarrow> length l' = 4 \<Longrightarrow> length px = le16 h0 h1 * le16 w0 w1 \<Longrightarrow>
     same_but_lengths rest rest' \<Longrightarrow>
     same_but_lengths (l @ [c0, c1, w0, w1, h0, h1] @ px @ rest)
                      (l' @ [c0, c1, w0, w1, h0, h1] @ px @ rest')"

text \<open>
  Two entries of the GB2312 table, enough to run the decoder on concrete files: the
  bytes C4 E3 are U+4F60 and the bytes BA C3 are U+597D. A text is its list of code
  points; every other byte string is rejected here.
\<close>

definition gb2312_sample :: "byte list \<Rightarrow> nat list option" where
  "gb2312_sample b =
     (if b = [0xC4, 0xE3] then Some [0x4F60]
      else if b = [0xBA, 0xC3] then Some [0x597D]
      else None)"

text \<open>Two records for concrete runs: a 2 by 1 image labelled C4 E3 and a 1 by 2
  image labelled BA C3.\<close>

definition sample_ni :: gnt_record where
  "sample_ni = \<lparr>r_length = 8, r_label = (0xC4, 0xE3), r_width = 2, r_height = 1,
                 r_pixels = [7, 8]\<rparr>"


section \<open>Lemmas\<close>

subsection \<open>Unfolding the generator\<close>

lemma load_gnt_file_Stop:
  "next_record toimage gb2312 f = Stop \<Longrightarrow> load_gnt_file toimage gb2312 f = ([], Done)"
  by (simp add: load_gnt_file.simps [of toimage gb2312 f])

lemma load_gnt_file_Raise:
  "next_record toimage gb2312 f = Raise e
    \<Longrightarrow> load_gnt_file toimage gb2312 f = ([], Raised e)"
  by (simp add: load_gnt_file.simps [of toimage gb2312 f])

lemma load_gnt_file_Yield:
  "next_record toimage gb2312 f = Yield r f'
    \<Longrightarrow> load_gnt_file toimage gb2312 f =
        (r # fst (load_gnt_file toimage gb2312 f'), snd (load_gnt_file toimage gb2312 f'))"
  by (simp add: load_gnt_file.simps [of toimage gb2312 f] split: prod.splits)

subsection \<open>What one turn of the loop does\<close>

lemma unpack_I_Inr: "unpack_I b = Inr v \<Longrightarrow> length b = 4"
  by (auto simp: unpack_I_def split: if_splits)

lemma unpack_cc_Inr: "unpack_cc b = Inr v \<Longrightarrow> length b = 2"
  by (auto simp: unpack_cc_def split: if_splits)

lemma unpack_H_Inr: "unpack_H b = Inr v \<Longrightarrow> length b = 2"
  by (auto simp: unpack_H_def split: if_splits)

lemma unpack_B_Inr: "unpack_B n b = Inr v \<Longrightarrow> length b = n \<and> v = b"
  by (auto simp: unpack_B_def split: if_splits)

lemma next_record_consumes:
  "next_record toimage gb2312 f = Yield r f' \<Longrightarrow> length f' + 10 \<le> length f"
  unfolding next_record_def f_read_def
  by (auto split: if_splits sum.splits option.splits prod.splits
      dest!: unpack_I_Inr unpack_cc_Inr unpack_H_Inr unpack_B_Inr)

lemma next_record_Nil: "next_record toimage gb2312 [] = Stop"
  by (simp add: next_record_def f_read_def)

lemma next_record_header:
  "next_record toimage gb2312 (l0 # l1 # l2 # l3 # c0 # c1 # w0 # w1 # h0 # h1 # body) =
     (if length body < le16 h0 h1 * le16 w0 w1 then Raise StructError
      else (case gb2312 [c0, c1] of
              None \<Rightarrow> Raise UnicodeDecodeError
            | Some label \<Rightarrow>
               (case toimage \<lparr>nrows = le16 h0 h1, ncols = le16 w0 w1,
                                rows = grid (le16 h0 h1) (le16 w0 w1) (take (le16 h0 h1 * le16 w0 w1) body)\<rparr> of
                  Inl e \<Rightarrow> Raise e
                | Inr img \<Rightarrow> Yield (img, label) (drop (le16 h0 h1 * le16 w0 w1) body))))"
proof (cases "length body < le16 h0 h1 * le16 w0 w1")
  case True
  then show ?thesis
    by (simp add: next_record_def f_read_def unpack_I_def unpack_cc_def unpack_H_def
      unpack_B_def)
next
  case False
  then have r: "reshape (le16 h0 h1) (le16 w0 w1) (take (le16 h0 h1 * le16 w0 w1) body)
      = Inr \<lparr>nrows = le16 h0 h1, ncols = le16 w0 w1,
          rows = grid (le16 h0 h1) (le16 w0 w1) (take (le16 h0 h1 * le16 w0 w1) body)\<rparr>"
    by (simp add: reshape_def)
  from False show ?thesis
    by (simp add: next_record_def f_read_def unpack_I_def unpack_cc_def unpack_H_def
      unpack_B_def r split: option.splits)
qed

lemma next_record_short:
  assumes "f \<noteq> []" "length f < 10"
  shows "next_record toimage gb2312 f = Raise StructError"
proof -
  have ne: "take 4 f \<noteq> []" using assms(1) by simp
  consider "length f < 4" | "4 \<le> length f" "length f < 6" | "6 \<le> length f" "length f < 8"
    | "8 \<le> length f" "length f < 10" using assms by linarith
  then show ?thesis
  proof cases
    case 1
    then have "unpack_I (take 4 f) = Inl StructError" by (simp add: unpack_I_def)
    then show ?thesis using ne by (simp add: next_record_def f_read_def)
  next
    case 2
    then obtain v where "unpack_I (take 4 f) = Inr v" by (simp add: unpack_I_def)
    moreover from 2 have "unpack_cc (take 2 (drop 4 f)) = Inl StructError"
      by (simp add: unpack_cc_def)
    ultimately show ?thesis using ne by (simp add: next_record_def f_read_def)
  next
    case 3
    then obtain v where "unpack_I (take 4 f) = Inr v" by (simp add: unpack_I_def)
    moreover from 3 obtain c where "unpack_cc (take 2 (drop 4 f)) = Inr c"
      by (simp add: unpack_cc_def)
    moreover from 3 have "unpack_H (take 2 (drop 6 f)) = Inl StructError"
      by (simp add: unpack_H_def)
    ultimately show ?thesis using ne by (simp add: next_record_def f_read_def)
  next
    case 4
    then obtain v where "unpack_I (take 4 f) = Inr v" by (simp add: unpack_I_def)
    moreover from 4 obtain c where "unpack_cc (take 2 (drop 4 f)) = Inr c"
      by (simp add: unpack_cc_def)
    moreover from 4 obtain w where "unpack_H (take 2 (drop 6 f)) = Inr w"
      by (simp add: unpack_H_def)
    moreover from 4 have "unpack_H (take 2 (drop 8 f)) = Inl StructError"
      by (simp add: unpack_H_def)
    ultimately show ?thesis using ne by (simp add: next_record_def f_read_def)
  qed
qed

lemma next_record_length_field:
  assumes "length l = 4" "length l' = 4"
  shows "next_record toimage gb2312 (l @ t) = next_record toimage gb2312 (l' @ t)"
proof -
  obtain v where v: "unpack_I l = Inr v" using assms(1)
    by (simp add: unpack_I_def)
  obtain v' where v': "unpack_I l' = Inr v'" using assms(2)
    by (simp add: unpack_I_def)
  from assms have "l \<noteq> []" "l' \<noteq> []" by auto
  then show ?thesis using assms v v'
    by (simp add: next_record_def f_read_def)
qed


lemma ten_bytes:
  "10 \<le> length f \<Longrightarrow>
     \<exists>l0 l1 l2 l3 c0 c1 w0 w1 h0 h1 body.
        f = l0 # l1 # l2 # l3 # c0 # c1 # w0 # w1 # h0 # h1 # body"
  by (auto simp: numeral_eq_Suc Suc_le_length_iff)

lemma next_record_Stop_iff: "next_record toimage gb2312 f = Stop \<longleftrightarrow> f = []"
proof
  assume stop: "next_record toimage gb2312 f = Stop"
  show "f = []"
  proof (rule ccontr)
    assume ne: "f \<noteq> []"
    then have "10 \<le> length f" using stop next_record_short [of f toimage gb2312]
      by (cases "length f < 10") simp_all
    then obtain l0 l1 l2 l3 c0 c1 w0 w1 h0 h1 body
      where f: "f = l0 # l1 # l2 # l3 # c0 # c1 # w0 # w1 # h0 # h1 # body"
      using ten_bytes [of f] by auto
    from stop show False
      unfolding f next_record_header by (auto split: if_splits option.splits sum.splits)
  qed
next
  assume "f = []"
  then show "next_record toimage gb2312 f = Stop" by (simp add: next_record_Nil)
qed

lemma load_gnt_file_Nil: "load_gnt_file toimage gb2312 [] = ([], Done)"
  by (simp add: load_gnt_file_Stop next_record_Nil)

subsection \<open>Rows of the array\<close>







subsection \<open>Packing and unpacking numbers\<close>

lemma byte_bound: "unat (b :: byte) < 256"
  using unsigned_less [of b, where 'a = nat] by simp

lemma le16_pack: "n < 65536 \<Longrightarrow> le16 (of_nat (n mod 256)) (of_nat (n div 256 mod 256)) = n"
  by (simp add: le16_def unat_of_nat)

lemma le16_bound: "le16 b0 b1 < 65536"
proof -
  have "unat b0 < 256" "unat b1 < 256" by (rule byte_bound)+
  then show ?thesis by (simp add: le16_def)
qed

lemma pack_H_le16: "pack_H (le16 b0 b1) = [b0, b1]"
proof -
  have "unat b0 < 256" "unat b1 < 256" by (rule byte_bound)+
  then have "(unat b0 + 256 * unat b1) mod 256 = unat b0"
    "(unat b0 + 256 * unat b1) div 256 mod 256 = unat b1" by simp_all
  then show ?thesis by (simp add: pack_H_def le16_def)
qed

lemma base256:
  assumes "a < (256::nat)"
  shows "(a + 256 * k) mod 256 = a" "(a + 256 * k) div 256 = k"
  using assms by simp_all

lemma pack_I_le32:
  "pack_I (unat l0 + 256 * unat l1 + 65536 * unat l2 + 16777216 * unat l3) = [l0, l1, l2, l3]"
proof -
  define a b c d where "a = unat l0" and "b = unat l1" and "c = unat l2" and "d = unat l3"
  have bnd: "a < 256" "b < 256" "c < 256" "d < 256"
    unfolding a_def b_def c_def d_def by (rule byte_bound)+
  define n where "n = a + 256 * b + 65536 * c + 16777216 * d"
  have n: "n = a + 256 * (b + 256 * (c + 256 * d))" by (simp add: n_def)
  have n1: "n div 256 = b + 256 * (c + 256 * d)" unfolding n using bnd(1) by (rule base256(2))
  have "n div 65536 = n div 256 div 256" by (simp add: div_mult2_eq [symmetric])
  then have n2: "n div 65536 = c + 256 * d" unfolding n1 using bnd(2) by (simp add: base256)
  have "n div 16777216 = n div 65536 div 256" by (simp add: div_mult2_eq [symmetric])
  then have n3: "n div 16777216 = d" unfolding n2 using bnd(3) by (simp add: base256)
  have m0: "n mod 256 = a" unfolding n using bnd(1) by (rule base256(1))
  have m1: "n div 256 mod 256 = b" unfolding n1 using bnd(2) by (rule base256(1))
  have m2: "n div 65536 mod 256 = c" unfolding n2 using bnd(3) by (rule base256(1))
  have m3: "n div 16777216 mod 256 = d" unfolding n3 using bnd(4) by simp
  have "pack_I n = [l0, l1, l2, l3]"
    unfolding pack_I_def m0 m1 m2 m3 by (simp add: a_def b_def c_def d_def)
  then show ?thesis by (simp add: n_def a_def b_def c_def d_def)
qed

lemma le32_bound:
  "unat (l0::byte) + 256 * unat (l1::byte) + 65536 * unat (l2::byte) + 16777216 * unat (l3::byte) < 2 ^ 32"
  using byte_bound [of l0] byte_bound [of l1] byte_bound [of l2] byte_bound [of l3] by simp

subsection \<open>The decoder on the layout\<close>

lemma next_record_layout:
  assumes "decodes_to toimage gb2312 r out"
  shows "next_record toimage gb2312 (gnt_layout r @ rest) = Yield out rest"
proof -
  from assms have wf: "r_width r < 65536" "r_height r < 65536"
      "length (r_pixels r) = r_width r * r_height r"
    and lab: "gb2312 [fst (r_label r), snd (r_label r)] = Some (snd out)"
    and img: "toimage (array_of r) = Inr (fst out)"
    by (simp_all add: decodes_to_def well_formed_def)
  have len: "length (r_pixels r) = r_height r * r_width r" using wf(3) by (simp add: mult.commute)
  show ?thesis using img lab
    by (simp add: gnt_layout_def pack_I_def pack_H_def next_record_header le16_pack wf(1,2)
        len [symmetric] array_of_def)
qed

lemma load_gnt_file_prefix:
  "list_all2 (decodes_to toimage gb2312) rs outs \<Longrightarrow>
     load_gnt_file toimage gb2312 (concat (map gnt_layout rs) @ rest) =
       (outs @ fst (load_gnt_file toimage gb2312 rest),
        snd (load_gnt_file toimage gb2312 rest))"
proof (induction rs outs rule: list_all2_induct)
  case Nil
  then show ?case by simp
next
  case (Cons r rs out outs)
  have "next_record toimage gb2312 (gnt_layout r @ concat (map gnt_layout rs) @ rest)
      = Yield out (concat (map gnt_layout rs) @ rest)"
    using Cons.hyps(1) by (rule next_record_layout)
  from load_gnt_file_Yield [OF this] Cons.IH show ?case by simp
qed

lemma next_record_Yield_layout:
  assumes "next_record toimage gb2312 f = Yield out f'"
  shows "\<exists>r. decodes_to toimage gb2312 r out \<and> f = gnt_layout r @ f'"
proof -
  have "f \<noteq> []" using assms by (auto simp: next_record_Nil)
  then have "10 \<le> length f" using assms next_record_short [of f toimage gb2312]
    by (cases "length f < 10") simp_all
  then obtain l0 l1 l2 l3 c0 c1 w0 w1 h0 h1 body
    where f: "f = l0 # l1 # l2 # l3 # c0 # c1 # w0 # w1 # h0 # h1 # body"
    using ten_bytes [of f] by auto
  let ?w = "le16 w0 w1" and ?h = "le16 h0 h1"
  let ?r = "\<lparr>r_length = unat l0 + 256 * unat l1 + 65536 * unat l2 + 16777216 * unat l3,
             r_label = (c0, c1), r_width = ?w, r_height = ?h,
             r_pixels = take (?h * ?w) body\<rparr>"
  from assms have long: "?h * ?w \<le> length body"
    unfolding f next_record_header by (auto split: if_splits)
  with assms obtain label where lab: "gb2312 [c0, c1] = Some label"
    unfolding f next_record_header by (auto split: if_splits option.splits)
  with assms long obtain img
    where img: "toimage \<lparr>nrows = ?h, ncols = ?w, rows = grid ?h ?w (take (?h * ?w) body)\<rparr> = Inr img"
      and out: "out = (img, label)" and f': "f' = drop (?h * ?w) body"
    unfolding f next_record_header by (auto split: if_splits sum.splits)
  have "decodes_to toimage gb2312 ?r out"
    using long lab img out le16_bound [of w0 w1] le16_bound [of h0 h1] le32_bound [of l0 l1 l2 l3]
    by (simp add: decodes_to_def well_formed_def array_of_def mult.commute)
  moreover have "f = gnt_layout ?r @ f'"
    by (simp add: f f' gnt_layout_def pack_I_le32 pack_H_le16)
  ultimately show ?thesis by blast
qed

lemma load_gnt_file_Done_layout:
  "snd (load_gnt_file toimage gb2312 f) = Done \<Longrightarrow>
     \<exists>rs. list_all2 (decodes_to toimage gb2312) rs (fst (load_gnt_file toimage gb2312 f))
        \<and> f = concat (map gnt_layout rs)"
proof (induction toimage gb2312 f rule: load_gnt_file.induct)
  case (1 toimage gb2312 f)
  show ?case
  proof (cases "next_record toimage gb2312 f")
    case Stop
    then have "f = []" by (simp add: next_record_Stop_iff)
    then show ?thesis by (simp add: load_gnt_file_Nil)
  next
    case (Raise e)
    with "1.prems" show ?thesis by (simp add: load_gnt_file_Raise)
  next
    case (Yield out f')
    from "1.prems" have "snd (load_gnt_file toimage gb2312 f') = Done"
      by (simp add: load_gnt_file_Yield [OF Yield])
    from "1.IH" [OF Yield this] obtain rs
      where rs: "list_all2 (decodes_to toimage gb2312) rs (fst (load_gnt_file toimage gb2312 f'))"
        and f': "f' = concat (map gnt_layout rs)" by blast
    from next_record_Yield_layout [OF Yield] obtain r
      where r: "decodes_to toimage gb2312 r out" and f: "f = gnt_layout r @ f'" by blast
    have "list_all2 (decodes_to toimage gb2312) (r # rs) (fst (load_gnt_file toimage gb2312 f))"
      using r rs by (simp add: load_gnt_file_Yield [OF Yield])
    moreover have "f = concat (map gnt_layout (r # rs))" using f f' by simp
    ultimately show ?thesis by blast
  qed
qed

subsection \<open>Bare names\<close>

lemma lookup_get_all_datasets: "lookup_name ''get_all_datasets'' = Inl NameError"
  by (simp add: lookup_name_def module_globals_def builtins_used_def)

lemma lookup_load_gnt_file: "lookup_name ''load_gnt_file'' = Inl NameError"
  by (simp add: lookup_name_def module_globals_def builtins_used_def)

subsection \<open>The sample records\<close>

lemma sample_ni_layout: "gnt_layout sample_ni = [8, 0, 0, 0, 0xC4, 0xE3, 2, 0, 1, 0, 7, 8]"
  by (simp add: gnt_layout_def sample_ni_def pack_I_def pack_H_def)


lemma sample_ni_decodes:
  "decodes_to Inr gb2312_sample sample_ni
     (\<lparr>nrows = 1, ncols = 2, rows = [[7, 8]]\<rparr>, [0x4F60])"
proof -
  have "grid 1 2 [7, 8] = [[7, 8]]" by (simp add: grid_def)
  then show ?thesis
    by (simp add: decodes_to_def well_formed_def array_of_def gb2312_sample_def sample_ni_def)
qed


section \<open>Properties of the decoder and of the class\<close>

subsection \<open>Records that decode\<close>





text \<open>
  C5. Label decoding. When a record's header and payload are complete and the codec
  accepts the two label bytes, given to it as one two-byte string in their order in
  the file, the text of the item yielded for that record is exactly the codec's text.
  With the bytes C4 E3 this is the character U+4F60.
\<close>

theorem label_decoding:
  assumes "gb2312 [c0, c1] = Some t"
    and "le16 h0 h1 * le16 w0 w1 \<le> length body"
    and "toimage \<lparr>nrows = le16 h0 h1, ncols = le16 w0 w1,
            rows = grid (le16 h0 h1) (le16 w0 w1) (take (le16 h0 h1 * le16 w0 w1) body)\<rparr>
          = Inr img"
  shows "map snd (fst (load_gnt_file toimage gb2312
            (l0 # l1 # l2 # l3 # c0 # c1 # w0 # w1 # h0 # h1 # body)))
         = t # map snd (fst (load_gnt_file toimage gb2312
                  (drop (le16 h0 h1 * le16 w0 w1) body)))"
proof -
  have "next_record toimage gb2312 (l0 # l1 # l2 # l3 # c0 # c1 # w0 # w1 # h0 # h1 # body)
      = Yield (img, t) (drop (le16 h0 h1 * le16 w0 w1) body)"
    using assms by (simp add: next_record_header)
  from load_gnt_file_Yield [OF this] show ?thesis by simp
qed

theorem label_decoding_witness:
  "gb2312_sample [0xC4, 0xE3] = Some [0x4F60]
   \<and> le16 1 0 * le16 1 0 \<le> length [9 :: byte]
   \<and> map snd (fst (load_gnt_file Inr gb2312_sample [1, 0, 0, 0, 0xC4, 0xE3, 1, 0, 1, 0, 9]))
      = [[0x4F60]]"
proof -
  have a: "gb2312_sample [0xC4, 0xE3] = Some [0x4F60]" by (simp add: gb2312_sample_def)
  have b: "le16 1 0 * le16 1 0 \<le> length [9 :: byte]" by (simp add: le16_def)
  have c: "(Inr \<lparr>nrows = le16 1 0, ncols = le16 1 0,
            rows = grid (le16 1 0) (le16 1 0) (take (le16 1 0 * le16 1 0) [9])\<rparr>
              :: error + ndarray)
          = Inr \<lparr>nrows = 1, ncols = 1, rows = [[9]]\<rparr>"
    by (simp add: le16_def grid_def)
  from label_decoding [where toimage = Inr and ?gb2312.0 = gb2312_sample and ?c0.0 = "0xC4"
      and ?c1.0 = "0xE3" and ?h0.0 = 1 and ?h1.0 = 0 and ?w0.0 = 1 and ?w1.0 = 0
      and body = "[9]" and ?l0.0 = 1 and ?l1.0 = 0 and ?l2.0 = 0 and ?l3.0 = 0, OF a b c] a b
  show ?thesis by (simp add: le16_def load_gnt_file_Nil)
qed

subsection \<open>Files that end early or hold a bad label\<close>

text \<open>
  C3. Truncation detection. After any number of records that decode, a complete
  ten-byte header followed by fewer payload bytes than height times width makes
  \<open>load_gnt_file\<close> raise \<^verbatim>\<open>struct.error\<close> once the earlier items are yielded: it neither
  yields an item with a short image nor ends cleanly. This holds whatever the label
  bytes of the short record are.
\<close>

theorem truncated_payload:
  assumes "list_all2 (decodes_to toimage gb2312) rs outs"
    and "length short < le16 h0 h1 * le16 w0 w1"
  shows "load_gnt_file toimage gb2312
           (concat (map gnt_layout rs) @ [l0, l1, l2, l3, c0, c1, w0, w1, h0, h1] @ short)
         = (outs, Raised StructError)"
proof -
  have "next_record toimage gb2312 ([l0, l1, l2, l3, c0, c1, w0, w1, h0, h1] @ short)
      = Raise StructError"
    using assms(2) by (simp add: next_record_header)
  then have "load_gnt_file toimage gb2312 ([l0, l1, l2, l3, c0, c1, w0, w1, h0, h1] @ short)
      = ([], Raised StructError)" by (rule load_gnt_file_Raise)
  with load_gnt_file_prefix [OF assms(1)] show ?thesis by simp
qed

theorem truncated_payload_witness:
  "list_all2 (decodes_to Inr gb2312_sample) [sample_ni]
      [(\<lparr>nrows = 1, ncols = 2, rows = [[7, 8]]\<rparr>, [0x4F60])]
   \<and> length [1, 2, 3 :: byte] < le16 2 0 * le16 2 0
   \<and> load_gnt_file Inr gb2312_sample
        ([8, 0, 0, 0, 0xC4, 0xE3, 2, 0, 1, 0, 7, 8]
          @ [10, 0, 0, 0, 0xBA, 0xC3, 2, 0, 2, 0] @ [1, 2, 3])
      = ([(\<lparr>nrows = 1, ncols = 2, rows = [[7, 8]]\<rparr>, [0x4F60])], Raised StructError)"
proof -
  have h: "list_all2 (decodes_to Inr gb2312_sample) [sample_ni]
      [(\<lparr>nrows = 1, ncols = 2, rows = [[7, 8]]\<rparr>, [0x4F60])]"
    using sample_ni_decodes by simp
  have s: "length [1, 2, 3 :: byte] < le16 2 0 * le16 2 0" by (simp add: le16_def)
  have "load_gnt_file Inr gb2312_sample
        (concat (map gnt_layout [sample_ni])
          @ [10, 0, 0, 0, 0xBA, 0xC3, 2, 0, 2, 0] @ [1, 2, 3])
      = ([(\<lparr>nrows = 1, ncols = 2, rows = [[7, 8]]\<rparr>, [0x4F60])], Raised StructError)"
    using h s by (rule truncated_payload)
  then have "load_gnt_file Inr gb2312_sample
        ([8, 0, 0, 0, 0xC4, 0xE3, 2, 0, 1, 0, 7, 8]
          @ [10, 0, 0, 0, 0xBA, 0xC3, 2, 0, 2, 0] @ [1, 2, 3])
      = ([(\<lparr>nrows = 1, ncols = 2, rows = [[7, 8]]\<rparr>, [0x4F60])], Raised StructError)"
    by (simp add: sample_ni_layout)
  with h s show ?thesis by (intro conjI)
qed

text \<open>
  C4. Clean termination only at a record boundary. The empty file gives no item and
  no error. The loop breaks exactly when no byte is left at the start of a record, and
  a run ends cleanly exactly when the file is a concatenation of layouts of records
  that decode, that is when the bytes run out exactly where a record would start. With
  one, two or three bytes left where a record would start, the run ends in
  \<^verbatim>\<open>struct.error\<close> after the earlier items.
\<close>

theorem clean_end_only_at_boundary:
  "load_gnt_file toimage gb2312 [] = ([], Done)
   \<and> (next_record toimage gb2312 f = Stop \<longleftrightarrow> f = [])
   \<and> (snd (load_gnt_file toimage gb2312 f) = Done \<longleftrightarrow>
        (\<exists>rs outs. list_all2 (decodes_to toimage gb2312) rs outs
            \<and> f = concat (map gnt_layout rs)))
   \<and> (list_all2 (decodes_to toimage gb2312) rs outs \<and> 1 \<le> length t \<and> length t \<le> 3 \<longrightarrow>
        load_gnt_file toimage gb2312 (concat (map gnt_layout rs) @ t)
          = (outs, Raised StructError))"
proof -
  have a: "load_gnt_file toimage gb2312 [] = ([], Done)" by (rule load_gnt_file_Nil)
  have b: "next_record toimage gb2312 f = Stop \<longleftrightarrow> f = []" by (rule next_record_Stop_iff)
  have c: "snd (load_gnt_file toimage gb2312 f) = Done \<longleftrightarrow>
        (\<exists>rs outs. list_all2 (decodes_to toimage gb2312) rs outs
            \<and> f = concat (map gnt_layout rs))"
  proof
    assume "snd (load_gnt_file toimage gb2312 f) = Done"
    from load_gnt_file_Done_layout [OF this]
    show "\<exists>rs outs. list_all2 (decodes_to toimage gb2312) rs outs
            \<and> f = concat (map gnt_layout rs)" by blast
  next
    assume "\<exists>rs outs. list_all2 (decodes_to toimage gb2312) rs outs
            \<and> f = concat (map gnt_layout rs)"
    then obtain rs outs where "list_all2 (decodes_to toimage gb2312) rs outs"
      and f: "f = concat (map gnt_layout rs)" by blast
    from load_gnt_file_prefix [OF this(1), of "[]"]
    show "snd (load_gnt_file toimage gb2312 f) = Done" by (simp add: f load_gnt_file_Nil)
  qed
  have d: "list_all2 (decodes_to toimage gb2312) rs outs \<and> 1 \<le> length t \<and> length t \<le> 3 \<longrightarrow>
        load_gnt_file toimage gb2312 (concat (map gnt_layout rs) @ t)
          = (outs, Raised StructError)"
  proof (intro impI, elim conjE)
    assume rs: "list_all2 (decodes_to toimage gb2312) rs outs"
      and t: "1 \<le> length t" "length t \<le> 3"
    from t have "t \<noteq> []" "length t < 10" by auto
    then have "next_record toimage gb2312 t = Raise StructError" by (rule next_record_short)
    then have "load_gnt_file toimage gb2312 t = ([], Raised StructError)"
      by (rule load_gnt_file_Raise)
    with load_gnt_file_prefix [OF rs, of t]
    show "load_gnt_file toimage gb2312 (concat (map gnt_layout rs) @ t)
          = (outs, Raised StructError)" by simp
  qed
  from a b c d show ?thesis by blast
qed

theorem clean_end_only_at_boundary_witness:
  "list_all2 (decodes_to Inr gb2312_sample) [sample_ni]
      [(\<lparr>nrows = 1, ncols = 2, rows = [[7, 8]]\<rparr>, [0x4F60])]
   \<and> 1 \<le> length [8, 0 :: byte] \<and> length [8, 0 :: byte] \<le> 3
   \<and> load_gnt_file Inr gb2312_sample ([8, 0, 0, 0, 0xC4, 0xE3, 2, 0, 1, 0, 7, 8] @ [8, 0])
      = ([(\<lparr>nrows = 1, ncols = 2, rows = [[7, 8]]\<rparr>, [0x4F60])], Raised StructError)
   \<and> load_gnt_file Inr gb2312_sample [] = ([], Done :: outcome)"
proof -
  have h: "list_all2 (decodes_to Inr gb2312_sample) [sample_ni]
      [(\<lparr>nrows = 1, ncols = 2, rows = [[7, 8]]\<rparr>, [0x4F60])]"
    using sample_ni_decodes by simp
  have t: "1 \<le> length [8, 0 :: byte]" "length [8, 0 :: byte] \<le> 3" by simp_all
  note c = clean_end_only_at_boundary [where toimage = Inr and ?gb2312.0 = gb2312_sample
      and f = "[]" and rs = "[sample_ni]"
      and outs = "[(\<lparr>nrows = 1, ncols = 2, rows = [[7, 8]]\<rparr>, [0x4F60])]" and t = "[8, 0]"]
  from c have e: "load_gnt_file Inr gb2312_sample [] = ([], Done :: outcome)"
    by (rule conjunct1)
  from c h t have "load_gnt_file Inr gb2312_sample (concat (map gnt_layout [sample_ni]) @ [8, 0])
      = ([(\<lparr>nrows = 1, ncols = 2, rows = [[7, 8]]\<rparr>, [0x4F60])], Raised StructError)"
    by blast
  then have "load_gnt_file Inr gb2312_sample
        ([8, 0, 0, 0, 0xC4, 0xE3, 2, 0, 1, 0, 7, 8] @ [8, 0])
      = ([(\<lparr>nrows = 1, ncols = 2, rows = [[7, 8]]\<rparr>, [0x4F60])], Raised StructError)"
    by (simp add: sample_ni_layout)
  with h t e show ?thesis by (intro conjI)
qed

text \<open>
  C6. An invalid label aborts the sequence. After any number of records that decode,
  a record with a complete header and payload whose two label bytes the codec rejects
  makes \<open>load_gnt_file\<close> raise \<^verbatim>\<open>UnicodeDecodeError\<close>: the items of the earlier
  records are yielded, no item is yielded for the record nor for anything that follows
  it in the file, whatever follows.
\<close>

theorem invalid_label_aborts:
  assumes "list_all2 (decodes_to toimage gb2312) rs outs"
    and "gb2312 [c0, c1] = None"
    and "le16 h0 h1 * le16 w0 w1 \<le> length body"
  shows "load_gnt_file toimage gb2312
           (concat (map gnt_layout rs) @ [l0, l1, l2, l3, c0, c1, w0, w1, h0, h1] @ body)
         = (outs, Raised UnicodeDecodeError)"
proof -
  have "next_record toimage gb2312 ([l0, l1, l2, l3, c0, c1, w0, w1, h0, h1] @ body)
      = Raise UnicodeDecodeError"
    using assms(2,3) by (simp add: next_record_header)
  then have "load_gnt_file toimage gb2312 ([l0, l1, l2, l3, c0, c1, w0, w1, h0, h1] @ body)
      = ([], Raised UnicodeDecodeError)" by (rule load_gnt_file_Raise)
  with load_gnt_file_prefix [OF assms(1)] show ?thesis by simp
qed

theorem invalid_label_aborts_witness:
  "list_all2 (decodes_to Inr gb2312_sample) [sample_ni]
      [(\<lparr>nrows = 1, ncols = 2, rows = [[7, 8]]\<rparr>, [0x4F60])]
   \<and> gb2312_sample [0xFF, 0xFF] = None
   \<and> le16 1 0 * le16 1 0 \<le> length ([5] @ [8, 0, 0, 0, 0xBA, 0xC3, 1, 0, 2, 0, 9, 10 :: byte])
   \<and> load_gnt_file Inr gb2312_sample
        ([8, 0, 0, 0, 0xC4, 0xE3, 2, 0, 1, 0, 7, 8]
          @ [7, 0, 0, 0, 0xFF, 0xFF, 1, 0, 1, 0]
          @ ([5] @ [8, 0, 0, 0, 0xBA, 0xC3, 1, 0, 2, 0, 9, 10]))
      = ([(\<lparr>nrows = 1, ncols = 2, rows = [[7, 8]]\<rparr>, [0x4F60])], Raised UnicodeDecodeError)"
proof -
  have h: "list_all2 (decodes_to Inr gb2312_sample) [sample_ni]
      [(\<lparr>nrows = 1, ncols = 2, rows = [[7, 8]]\<rparr>, [0x4F60])]"
    using sample_ni_decodes by simp
  have n: "gb2312_sample [0xFF, 0xFF] = None" by (simp add: gb2312_sample_def)
  have b: "le16 1 0 * le16 1 0
      \<le> length ([5] @ [8, 0, 0, 0, 0xBA, 0xC3, 1, 0, 2, 0, 9, 10 :: byte])"
    by (simp add: le16_def)
  have "load_gnt_file Inr gb2312_sample
        (concat (map gnt_layout [sample_ni])
          @ [7, 0, 0, 0, 0xFF, 0xFF, 1, 0, 1, 0]
          @ ([5] @ [8, 0, 0, 0, 0xBA, 0xC3, 1, 0, 2, 0, 9, 10]))
      = ([(\<lparr>nrows = 1, ncols = 2, rows = [[7, 8]]\<rparr>, [0x4F60])], Raised UnicodeDecodeError)"
    using h n b by (rule invalid_label_aborts)
  then have "load_gnt_file Inr gb2312_sample
        ([8, 0, 0, 0, 0xC4, 0xE3, 2, 0, 1, 0, 7, 8]
          @ [7, 0, 0, 0, 0xFF, 0xFF, 1, 0, 1, 0]
          @ ([5] @ [8, 0, 0, 0, 0xBA, 0xC3, 1, 0, 2, 0, 9, 10]))
      = ([(\<lparr>nrows = 1, ncols = 2, rows = [[7, 8]]\<rparr>, [0x4F60])], Raised UnicodeDecodeError)"
    by (simp add: sample_ni_layout)
  with h n b show ?thesis by (intro conjI)
qed

subsection \<open>The length field\<close>

text \<open>
  C7. The length field is not used. Two files that are the same except for the values
  in the 4-byte length fields of their records give the same run of \<open>load_gnt_file\<close>:
  the same items in the same order and the same end, clean or the same exception. No
  value of a length field makes the decoder skip a byte or reject a record.
\<close>

theorem packed_length_unused:
  "same_but_lengths f g \<Longrightarrow> load_gnt_file toimage gb2312 f = load_gnt_file toimage gb2312 g"
proof (induction f g rule: same_but_lengths.induct)
  case (same f)
  show ?case by simp
next
  case (last_field l l' t)
  then have "next_record toimage gb2312 (l @ t) = next_record toimage gb2312 (l' @ t)"
    by (rule next_record_length_field)
  then show ?case
    by (simp add: load_gnt_file.simps [of toimage gb2312 "l @ t"]
        load_gnt_file.simps [of toimage gb2312 "l' @ t"])
next
  case (record_field l l' px h0 h1 w0 w1 rest rest' c0 c1)
  obtain a0 a1 a2 a3 where l: "l = [a0, a1, a2, a3]" using record_field.hyps(1)
    by (auto simp: numeral_eq_Suc length_Suc_conv)
  obtain b0 b1 b2 b3 where l': "l' = [b0, b1, b2, b3]" using record_field.hyps(2)
    by (auto simp: numeral_eq_Suc length_Suc_conv)
  show ?case
  proof (cases "gb2312 [c0, c1]")
    case None
    then have "next_record toimage gb2312 (l @ [c0, c1, w0, w1, h0, h1] @ px @ rest)
        = Raise UnicodeDecodeError"
      and "next_record toimage gb2312 (l' @ [c0, c1, w0, w1, h0, h1] @ px @ rest')
        = Raise UnicodeDecodeError"
      using record_field.hyps(3) by (simp_all add: l l' next_record_header)
    then show ?thesis by (simp add: load_gnt_file_Raise)
  next
    case (Some label)
    let ?arr = "\<lparr>nrows = le16 h0 h1, ncols = le16 w0 w1,
                  rows = grid (le16 h0 h1) (le16 w0 w1) px\<rparr>"
    show ?thesis
    proof (cases "toimage ?arr")
      case (Inl e)
      with Some have "next_record toimage gb2312 (l @ [c0, c1, w0, w1, h0, h1] @ px @ rest)
          = Raise e"
        and "next_record toimage gb2312 (l' @ [c0, c1, w0, w1, h0, h1] @ px @ rest')
          = Raise e"
        using record_field.hyps(3) by (simp_all add: l l' next_record_header)
      then show ?thesis by (simp add: load_gnt_file_Raise)
    next
      case (Inr img)
      with Some have "next_record toimage gb2312 (l @ [c0, c1, w0, w1, h0, h1] @ px @ rest)
          = Yield (img, label) rest"
        and "next_record toimage gb2312 (l' @ [c0, c1, w0, w1, h0, h1] @ px @ rest')
          = Yield (img, label) rest'"
        using record_field.hyps(3) by (simp_all add: l l' next_record_header)
      then show ?thesis using record_field.IH by (simp add: load_gnt_file_Yield)
    qed
  qed
qed

theorem packed_length_unused_witness:
  "same_but_lengths ([7, 0, 0, 0] @ [0xC4, 0xE3, 1, 0, 1, 0] @ [5] @ [])
                    ([9, 9, 9, 9] @ [0xC4, 0xE3, 1, 0, 1, 0] @ [5] @ [])
   \<and> load_gnt_file Inr gb2312_sample ([7, 0, 0, 0] @ [0xC4, 0xE3, 1, 0, 1, 0] @ [5] @ [])
     = (load_gnt_file Inr gb2312_sample ([9, 9, 9, 9] @ [0xC4, 0xE3, 1, 0, 1, 0] @ [5] @ [])
          :: (ndarray \<times> nat list) list \<times> outcome)"
proof -
  have "length [5 :: byte] = le16 1 0 * le16 1 0" by (simp add: le16_def)
  then have s: "same_but_lengths ([7, 0, 0, 0] @ [0xC4, 0xE3, 1, 0, 1, 0] @ [5] @ [])
                    ([9, 9, 9, 9] @ [0xC4, 0xE3, 1, 0, 1, 0] @ [5] @ [])"
    by (intro same_but_lengths.record_field same_but_lengths.same) simp_all
  from packed_length_unused [OF s] s show ?thesis by (intro conjI)
qed

subsection \<open>Smallest images\<close>



subsection \<open>Finiteness\<close>

text \<open>
  C9. The generator is finite on every finite file: \<open>load_gnt_file\<close> is a total
  function, its recursion ends because a turn of the loop that yields leaves at least
  ten bytes fewer to read, and so the number of yielded items is at most a tenth of the
  file's length, whatever the bytes are and however the run ends.
\<close>

theorem load_gnt_file_finite:
  "10 * length (fst (load_gnt_file toimage gb2312 f)) \<le> length f"
proof (induction toimage gb2312 f rule: load_gnt_file.induct)
  case (1 toimage gb2312 f)
  show ?case
  proof (cases "next_record toimage gb2312 f")
    case Stop
    then show ?thesis by (simp add: load_gnt_file_Stop)
  next
    case (Raise e)
    then show ?thesis by (simp add: load_gnt_file_Raise)
  next
    case (Yield r f')
    from Yield have less: "length f' + 10 \<le> length f" by (rule next_record_consumes)
    from "1.IH" [OF Yield]
    have "10 * length (fst (load_gnt_file toimage gb2312 f')) \<le> length f'" .
    with less show ?thesis by (simp add: load_gnt_file_Yield [OF Yield])
  qed
qed

subsection \<open>The instance methods\<close>

text \<open>
  C10. The instance-level interface cannot be used. The call \<^verbatim>\<open>CASIA()\<close> raises
  \<^verbatim>\<open>NameError\<close>, whatever \<^verbatim>\<open>get_all_datasets\<close> would have returned, because
  \<^verbatim>\<open>__init__\<close> calls it by a bare name that is bound neither at module level nor in
  the builtins, and no attribute is assigned before that. \<^verbatim>\<open>load_dataset\<close>, once its
  assert has passed, raises \<^verbatim>\<open>NameError\<close> at the first path it finds, before any
  item, because it calls \<^verbatim>\<open>load_gnt_file\<close> by a bare name; with no path it yields
  nothing. \<^verbatim>\<open>load_gnt_file\<close> is an attribute of the class, and called there it can
  succeed, as it does on the empty file.
\<close>

theorem instance_interface_unusable:
  "CASIA called = Inl NameError
   \<and> (paths \<noteq> [] \<longrightarrow>
        load_dataset toimage gb2312 files (Inr True) paths = ([], Raised NameError))
   \<and> load_dataset toimage gb2312 files (Inr True) [] = ([], Done)
   \<and> lookup_attribute ''load_gnt_file'' = Inr ''load_gnt_file''
   \<and> load_gnt_file toimage gb2312 [] = ([], Done)"
proof -
  have "CASIA called = Inl NameError"
    by (simp add: CASIA_def init_def lookup_get_all_datasets)
  moreover have "paths \<noteq> [] \<longrightarrow>
        load_dataset toimage gb2312 files (Inr True) paths = ([], Raised NameError)"
    by (cases paths) (simp_all add: load_dataset_def lookup_load_gnt_file)
  moreover have "load_dataset toimage gb2312 files (Inr True) [] = ([], Done)"
    by (simp add: load_dataset_def)
  moreover have "lookup_attribute ''load_gnt_file'' = Inr ''load_gnt_file''"
    by (simp add: lookup_attribute_def CASIA_attributes_def)
  ultimately show ?thesis by (simp add: load_gnt_file_Nil)
qed

theorem instance_interface_unusable_witness:
  "[''competition-gnt/001.gnt''] \<noteq> []
   \<and> load_dataset Inr gb2312_sample (\<lambda>p. []) (Inr True) [''competition-gnt/001.gnt'']
       = ([], Raised NameError)
   \<and> CASIA (Inr True) = Inl NameError"
  using instance_interface_unusable
    [of "Inr True" "[''competition-gnt/001.gnt'']" Inr gb2312_sample "\<lambda>p. []"]
  by simp

end
